theory Spec2Isabelle
  imports Main "HOL-Library.Sublist"
begin

text \<open>
  A model of \<open>ghkeys.py\<close>, which fetches the public SSH keys of GitHub users, one request
  per user and all at once, and prints them, writes them to a file or appends them to
  one. The network and the file system are what the program cannot decide: what each
  request meets and the order in which the requests end are parameters of \<open>fetch_all\<close>
  and \<open>main\<close>, and the files are part of the world \<open>main\<close> transforms.
\<close>

section \<open>Python strings\<close>

text \<open>
  A Python \<open>str\<close> is modelled as a \<open>string\<close>: a list of characters, each read as
  the code point it denotes (0 to 255). On that range \<open>str.isspace\<close> holds for exactly
  the twelve code points below, and \<open>str.splitlines\<close> breaks at the eight listed after
  them (with CR LF read as one break).
\<close>

definition whitespace :: "char list" where
  "whitespace = [CHR 0x09, CHR 0x0A, CHR 0x0B, CHR 0x0C, CHR 0x0D,
                 CHR 0x1C, CHR 0x1D, CHR 0x1E, CHR 0x1F, CHR 0x20, CHR 0x85, CHR 0xA0]"

definition isspace :: "char \<Rightarrow> bool" where
  "isspace c = (c \<in> set whitespace)"

definition linebreaks :: "char list" where
  "linebreaks = [CHR 0x0A, CHR 0x0B, CHR 0x0C, CHR 0x0D,
                 CHR 0x1C, CHR 0x1D, CHR 0x1E, CHR 0x85]"

definition is_linebreak :: "char \<Rightarrow> bool" where
  "is_linebreak c = (c \<in> set linebreaks)"

text \<open>\<open>s.strip()\<close>: drop the leading and the trailing whitespace.\<close>

definition strip :: "string \<Rightarrow> string" where
  "strip s = rev (dropWhile isspace (rev (dropWhile isspace s)))"

text \<open>
  \<open>s.splitlines()\<close>: the lines of \<open>s\<close> without their line breaks; a break at the very
  end opens no further (empty) line. The first argument is the line read so far.
\<close>

fun splitlines_from :: "string \<Rightarrow> string \<Rightarrow> string list" where
  "splitlines_from cur [] = (if cur = [] then [] else [cur])"
| "splitlines_from cur [c] = (if is_linebreak c then [cur] else [cur @ [c]])"
| "splitlines_from cur (c # d # cs) =
     (if c = CHR 0x0D \<and> d = CHR 0x0A then cur # splitlines_from [] cs
      else if is_linebreak c then cur # splitlines_from [] (d # cs)
      else splitlines_from (cur @ [c]) (d # cs))"

definition splitlines :: "string \<Rightarrow> string list" where
  "splitlines s = splitlines_from [] s"

text \<open>\<open>sep.join(xs)\<close>.\<close>

fun join :: "string \<Rightarrow> string list \<Rightarrow> string" where
  "join sep [] = []"
| "join sep [x] = x"
| "join sep (x # y # ys) = x @ sep @ join sep (y # ys)"

text \<open>\<open>str(n)\<close> for an integer: its decimal digits, with a minus sign when negative.\<close>

definition digit :: "nat \<Rightarrow> char" where
  "digit d = ''0123456789'' ! d"

fun str_nat :: "nat \<Rightarrow> string" where
  "str_nat n = (if n < 10 then [digit n] else str_nat (n div 10) @ [digit (n mod 10)])"

declare str_nat.simps [simp del]

definition str_int :: "int \<Rightarrow> string" where
  "str_int i = (if i < 0 then CHR ''-'' # str_nat (nat (- i)) else str_nat (nat i))"

text \<open>
  Truthiness of an \<open>Optional[str]\<close>: \<open>None\<close> and the empty string are false. The
  f-string rendering of such a value prints \<open>None\<close> for \<open>None\<close>.
\<close>

fun truthy :: "string option \<Rightarrow> bool" where
  "truthy None = False"
| "truthy (Some s) = (s \<noteq> [])"

fun fmt :: "string option \<Rightarrow> string" where
  "fmt None = ''None''"
| "fmt (Some s) = s"

section \<open>The fetcher\<close>

record FetchResult =
  user :: string
  keys :: "string option"
  error :: "string option"

text \<open>
  What a failed request raises inside \<open>fetch_keys\<close>: \<open>asyncio.TimeoutError\<close>, or any
  other exception deriving from \<open>Exception\<close>, which carries its \<open>str(e)\<close>. The
  interruption of the whole run (\<open>KeyboardInterrupt\<close>, a cancelled task) is not a failure
  of a request and is outside this type.
\<close>

datatype exn = TimeoutError | OtherException string

text \<open>
  One exchange with the keys endpoint, as \<open>fetch_keys\<close> observes it: either
  \<open>session.get\<close> raises, or it answers with a status, after which \<open>resp.text()\<close> (awaited
  only on status 200) raises or returns the body.
\<close>

datatype http_outcome = GetRaises exn | Responds int "exn + string"

text \<open>The body of the \<open>try\<close> block: what it returns, or the exception that leaves it.\<close>

definition fetch_try :: "http_outcome \<Rightarrow> string \<Rightarrow> exn + FetchResult" where
  "fetch_try outcome u =
     (case outcome of
        GetRaises e \<Rightarrow> Inl e
      | Responds status body \<Rightarrow>
          if status = 404 then Inr \<lparr>user = u, keys = None, error = Some ''User not found''\<rparr>
          else if status \<noteq> 200 then
            Inr \<lparr>user = u, keys = None, error = Some (''HTTP '' @ str_int status)\<rparr>
          else
            (case body of
               Inl e \<Rightarrow> Inl e
             | Inr raw \<Rightarrow>
                 let text = strip raw in
                 if text = [] then Inr \<lparr>user = u, keys = None, error = Some ''No keys found''\<rparr>
                 else Inr \<lparr>user = u, keys = Some text, error = None\<rparr>))"

text \<open>
  \<open>fetch_keys\<close>: the \<open>try\<close> block under its two handlers. The result is \<open>Inl\<close> when an
  exception leaves the function, \<open>Inr\<close> when it returns.
\<close>

definition fetch_keys :: "http_outcome \<Rightarrow> string \<Rightarrow> exn + FetchResult" where
  "fetch_keys outcome u =
     (case fetch_try outcome u of
        Inr r \<Rightarrow> Inr r
      | Inl TimeoutError \<Rightarrow> Inr \<lparr>user = u, keys = None, error = Some ''Request timed out''\<rparr>
      | Inl (OtherException d) \<Rightarrow> Inr \<lparr>user = u, keys = None, error = Some d\<rparr>)"

section \<open>The concurrent dispatcher\<close>

text \<open>
  \<open>asyncio.gather(*tasks)\<close>, with \<open>return_exceptions\<close> left false. Task \<open>i\<close> ends with
  \<open>tasks ! i\<close>; the tasks end in the order the list \<open>order\<close> gives. A task that returns
  stores its value in its own slot; once every slot is filled the values are handed
  over in the order of the tasks. A task that raises makes the awaiting caller raise at
  once. \<open>None\<close> means the caller is still waiting when \<open>order\<close> is used up. With no
  task at all the result is the empty list, at once.
\<close>

fun gather_from :: "(exn + 'a) list \<Rightarrow> (nat \<rightharpoonup> 'a) \<Rightarrow> nat list \<Rightarrow> (exn + 'a list) option" where
  "gather_from tasks slots [] = None"
| "gather_from tasks slots (i # order) =
     (if length tasks \<le> i then gather_from tasks slots order
      else
        (case tasks ! i of
           Inl e \<Rightarrow> Some (Inl e)
         | Inr v \<Rightarrow>
             (case those (map (slots(i \<mapsto> v)) [0..<length tasks]) of
                Some results \<Rightarrow> Some (Inr results)
              | None \<Rightarrow> gather_from tasks (slots(i \<mapsto> v)) order)))"

definition gather :: "(exn + 'a) list \<Rightarrow> nat list \<Rightarrow> (exn + 'a list) option" where
  "gather tasks order = (if tasks = [] then Some (Inr []) else gather_from tasks Map.empty order)"

text \<open>
  \<open>fetch_all\<close>: one \<open>fetch_keys\<close> task per requested user, in the order of the list;
  \<open>net i\<close> is what the network does to the \<open>i\<close>-th request.
\<close>

definition fetch_all ::
  "string list \<Rightarrow> (nat \<Rightarrow> http_outcome) \<Rightarrow> nat list \<Rightarrow> (exn + FetchResult list) option" where
  "fetch_all us net order =
     gather (map (\<lambda>(i, u). fetch_keys (net i) u) (enumerate 0 us)) order"

section \<open>The process and its surroundings\<close>

text \<open>
  The file system: a path is the list of names leading from the root to it, the root
  (the empty list) is always a directory, and every other path is absent, a regular
  file with its content, or a directory.
\<close>

type_synonym path = "string list"

datatype node = File string | Dir

type_synonym filesystem = "path \<rightharpoonup> node"

datatype os_error = FileExistsError | NotADirectoryError | IsADirectoryError | FileNotFoundError

definition node_at :: "filesystem \<Rightarrow> path \<Rightarrow> node option" where
  "node_at t p = (if p = [] then Some Dir else t p)"

text \<open>
  A \<open>pathlib.Path\<close> value: what \<open>str(path)\<close> prints, and the place it denotes.
  \<open>path.parent\<close> denotes the place one name shorter (the root is its own parent).
\<close>

record Path =
  path_str :: string
  path_loc :: path

definition exists_path :: "filesystem \<Rightarrow> path \<Rightarrow> bool" where
  "exists_path t p = (node_at t p \<noteq> None)"

text \<open>
  \<open>d.mkdir(parents=True, exist_ok=True)\<close>: an existing directory is left alone, a regular
  file in the way is an error, and a missing directory is made after its parent.
\<close>

function mkdir_parents :: "filesystem \<Rightarrow> path \<Rightarrow> os_error + filesystem" where
  "mkdir_parents t d =
     (case node_at t d of
        Some Dir \<Rightarrow> Inr t
      | Some (File c) \<Rightarrow> Inl FileExistsError
      | None \<Rightarrow>
          (case mkdir_parents t (butlast d) of
             Inl e \<Rightarrow> Inl NotADirectoryError
           | Inr t' \<Rightarrow> Inr (t'(d \<mapsto> Dir))))"
  by pat_completeness auto
termination
  by (relation "measure (\<lambda>(t, d). length d)") (auto simp: node_at_def split: if_splits)

declare mkdir_parents.simps [simp del]

text \<open>
  Opening \<open>p\<close> for writing or appending: a directory cannot be opened, and a new file can
  only be made inside an existing directory.
\<close>

definition open_check :: "filesystem \<Rightarrow> path \<Rightarrow> os_error option" where
  "open_check t p =
     (case node_at t p of
        Some Dir \<Rightarrow> Some IsADirectoryError
      | Some (File c) \<Rightarrow> None
      | None \<Rightarrow>
          (case node_at t (butlast p) of
             Some Dir \<Rightarrow> None
           | Some (File c) \<Rightarrow> Some NotADirectoryError
           | None \<Rightarrow> Some FileNotFoundError))"

definition content_at :: "filesystem \<Rightarrow> path \<Rightarrow> string" where
  "content_at t p = (case node_at t p of Some (File c) \<Rightarrow> c | _ \<Rightarrow> [])"

text \<open>\<open>path.write_text(content)\<close> and \<open>open("a")\<close> followed by \<open>write(content)\<close>.\<close>

definition write_text :: "filesystem \<Rightarrow> path \<Rightarrow> string \<Rightarrow> os_error + filesystem" where
  "write_text t p content =
     (case open_check t p of Some e \<Rightarrow> Inl e | None \<Rightarrow> Inr (t(p \<mapsto> File content)))"

definition append_text :: "filesystem \<Rightarrow> path \<Rightarrow> string \<Rightarrow> os_error + filesystem" where
  "append_text t p content =
     (case open_check t p of
        Some e \<Rightarrow> Inl e
      | None \<Rightarrow> Inr (t(p \<mapsto> File (content_at t p @ content))))"

text \<open>What the process can observe and change: the files and the two output streams.\<close>

record world =
  files :: filesystem
  stdout :: string
  stderr :: string

definition print_stdout :: "string \<Rightarrow> world \<Rightarrow> world" where
  "print_stdout s w = w\<lparr>stdout := stdout w @ s @ ''\<newline>''\<rparr>"

definition print_stderr :: "string \<Rightarrow> world \<Rightarrow> world" where
  "print_stderr s w = w\<lparr>stderr := stderr w @ s @ ''\<newline>''\<rparr>"

text \<open>
  How a call ends: it returns, or an exception leaves it: \<open>SystemExit\<close> with its code,
  an error of a file operation, or an exception out of the dispatcher. The last two
  reach the top of the program unhandled, which ends the process with code 1.
\<close>

datatype abort = SystemExit nat | OSError os_error | Unhandled exn

datatype ending = Returned | Raised abort

fun exit_code :: "ending \<Rightarrow> nat" where
  "exit_code Returned = 0"
| "exit_code (Raised (SystemExit n)) = n"
| "exit_code (Raised (OSError e)) = 1"
| "exit_code (Raised (Unhandled e)) = 1"

section \<open>The output sink\<close>

definition confirm_overwrite :: "Path \<Rightarrow> bool \<Rightarrow> world \<Rightarrow> ending \<times> world" where
  "confirm_overwrite path force w =
     (if exists_path (files w) (path_loc path) \<and> \<not> force then
        (Raised (SystemExit 1),
         print_stderr (''File '' @ path_str path @ '' already exists. Use --force to overwrite.'') w)
      else (Returned, w))"

definition safe_write :: "Path \<Rightarrow> string \<Rightarrow> bool \<Rightarrow> world \<Rightarrow> ending \<times> world" where
  "safe_write path content force w =
     (case confirm_overwrite path force w of
        (Raised a, w1) \<Rightarrow> (Raised a, w1)
      | (Returned, w1) \<Rightarrow>
          (case mkdir_parents (files w1) (butlast (path_loc path)) of
             Inl e \<Rightarrow> (Raised (OSError e), w1)
           | Inr t1 \<Rightarrow>
               (case write_text t1 (path_loc path) content of
                  Inl e \<Rightarrow> (Raised (OSError e), w1\<lparr>files := t1\<rparr>)
                | Inr t2 \<Rightarrow>
                    (Returned, print_stderr (''Wrote keys to '' @ path_str path) (w1\<lparr>files := t2\<rparr>)))))"

definition safe_append :: "Path \<Rightarrow> string \<Rightarrow> world \<Rightarrow> ending \<times> world" where
  "safe_append path content w =
     (case mkdir_parents (files w) (butlast (path_loc path)) of
        Inl e \<Rightarrow> (Raised (OSError e), w)
      | Inr t1 \<Rightarrow>
          (case append_text t1 (path_loc path) content of
             Inl e \<Rightarrow> (Raised (OSError e), w\<lparr>files := t1\<rparr>)
           | Inr t2 \<Rightarrow>
               (Returned, print_stderr (''Appended keys to '' @ path_str path) (w\<lparr>files := t2\<rparr>))))"

section \<open>The result formatter\<close>

text \<open>
  The loop of \<open>format_results\<close>: \<open>combined\<close> and \<open>had_errors\<close> are its two variables, and
  the diagnostics go to the error stream of the world as each result is visited.
\<close>

fun format_loop ::
  "bool \<Rightarrow> FetchResult list \<Rightarrow> string list \<Rightarrow> bool \<Rightarrow> world \<Rightarrow> (string list \<times> bool) \<times> world" where
  "format_loop inline [] combined had_errors w = ((combined, had_errors), w)"
| "format_loop inline (r # rs) combined had_errors w =
     (if truthy (error r) then
        format_loop inline rs combined True (print_stderr (user r @ '': '' @ fmt (error r)) w)
      else if \<not> truthy (keys r) then format_loop inline rs combined had_errors w
      else if inline then
        format_loop inline rs
          (combined @ map (\<lambda>line. line @ '' '' @ user r)
                        (filter (\<lambda>line. strip line \<noteq> []) (splitlines (fmt (keys r)))))
          had_errors w
      else
        format_loop inline rs
          (combined @ [''# '' @ user r @ ''\<newline>'' @ fmt (keys r) @ ''\<newline>''])
          had_errors w)"

definition format_results :: "FetchResult list \<Rightarrow> bool \<Rightarrow> world \<Rightarrow> (string \<times> bool) \<times> world" where
  "format_results results inline w =
     (case format_loop inline results [] False w of
        ((combined, had_errors), w') \<Rightarrow>
          ((strip (join ''\<newline>'' combined) @ ''\<newline>'', had_errors), w'))"

section \<open>JSON output\<close>

text \<open>The values \<open>main\<close> hands to \<open>json.dumps\<close>: \<open>None\<close>, strings, lists and dictionaries.\<close>

datatype json = JNull | JString string | JArray "json list" | JObject "(string \<times> json) list"

text \<open>
  A string as \<open>json.dumps\<close> writes it (\<open>ensure_ascii\<close> is on): quoted, with the quote, the
  backslash and everything outside the printable ASCII range escaped.
\<close>

definition hex_digit :: "nat \<Rightarrow> char" where
  "hex_digit d = ''0123456789abcdef'' ! d"

definition escape_char :: "char \<Rightarrow> string" where
  "escape_char c =
     (if c = CHR 0x22 then [CHR 0x5C, CHR 0x22]
      else if c = CHR 0x5C then [CHR 0x5C, CHR 0x5C]
      else if c = CHR 0x0A then [CHR 0x5C, CHR ''n'']
      else if c = CHR 0x0D then [CHR 0x5C, CHR ''r'']
      else if c = CHR 0x09 then [CHR 0x5C, CHR ''t'']
      else if c = CHR 0x08 then [CHR 0x5C, CHR ''b'']
      else if c = CHR 0x0C then [CHR 0x5C, CHR ''f'']
      else if 32 \<le> (of_char c :: nat) \<and> (of_char c :: nat) \<le> 126 then [c]
      else [CHR 0x5C, CHR ''u'', CHR ''0'', CHR ''0'',
            hex_digit ((of_char c :: nat) div 16), hex_digit ((of_char c :: nat) mod 16)])"

definition encode_string :: "string \<Rightarrow> string" where
  "encode_string s = [CHR 0x22] @ concat (map escape_char s) @ [CHR 0x22]"

definition newline_indent :: "nat \<Rightarrow> string" where
  "newline_indent level = CHR 0x0A # replicate (2 * level) CHR '' ''"

text \<open>\<open>json.dumps(v, indent=2)\<close>, for a value nested \<open>level\<close> deep.\<close>

fun dumps :: "nat \<Rightarrow> json \<Rightarrow> string" where
  "dumps level JNull = ''null''"
| "dumps level (JString s) = encode_string s"
| "dumps level (JArray xs) =
     (if xs = [] then ''[]''
      else ''['' @ newline_indent (Suc level)
           @ join ('','' @ newline_indent (Suc level)) (map (dumps (Suc level)) xs)
           @ newline_indent level @ '']'')"
| "dumps level (JObject kvs) =
     (if kvs = [] then ''{}''
      else ''{'' @ newline_indent (Suc level)
           @ join ('','' @ newline_indent (Suc level))
               (map (\<lambda>kv. encode_string (fst kv) @ '': '' @ dumps (Suc level) (snd kv)) kvs)
           @ newline_indent level @ ''}'')"

text \<open>The dictionary \<open>main\<close> builds for one result.\<close>

definition json_entry :: "FetchResult \<Rightarrow> json" where
  "json_entry r =
     JObject [(''user'', JString (user r)),
              (''keys'', JArray (map JString (if truthy (keys r) then splitlines (fmt (keys r)) else []))),
              (''error'', (case error r of None \<Rightarrow> JNull | Some e \<Rightarrow> JString e))]"

section \<open>The entry point\<close>

record args =
  arg_users :: "string list"
  arg_inline_comments :: bool
  arg_json :: bool
  arg_append :: bool
  arg_output :: "string option"
  arg_force :: bool

text \<open>
  \<open>main\<close> after the fetch. \<open>expanduser s\<close> stands for \<open>Path(s).expanduser()\<close>, which depends
  on the home and working directories of the run.
\<close>

definition main_body ::
  "(string \<Rightarrow> Path) \<Rightarrow> args \<Rightarrow> FetchResult list \<Rightarrow> world \<Rightarrow> ending \<times> world" where
  "main_body expanduser a results w =
     (if arg_json a then (Returned, print_stdout (dumps 0 (JArray (map json_entry results))) w)
      else
        (case format_results results (arg_inline_comments a) w of
           ((combined, had_errors), w1) \<Rightarrow>
             if strip combined = [] then (Returned, print_stderr ''No keys fetched.'' w1)
             else
               let w2 = (if had_errors then print_stderr [] w1 else w1) in
               if arg_append a then
                 safe_append
                   (if truthy (arg_output a) then expanduser (fmt (arg_output a))
                    else expanduser ''~/.ssh/authorized_keys'')
                   combined w2
               else if truthy (arg_output a) then
                 safe_write (expanduser (fmt (arg_output a))) combined (arg_force a) w2
               else (Returned, w2\<lparr>stdout := stdout w2 @ combined\<rparr>)))"

text \<open>
  \<open>main\<close>: the fetch, then the rest. \<open>None\<close> means the fetch is never over; an exception
  out of the fetch leaves \<open>main\<close> unhandled.
\<close>

definition main ::
  "(string \<Rightarrow> Path) \<Rightarrow> args \<Rightarrow> (nat \<Rightarrow> http_outcome) \<Rightarrow> nat list \<Rightarrow> world
     \<Rightarrow> (ending \<times> world) option" where
  "main expanduser a net order w =
     (case fetch_all (arg_users a) net order of
        None \<Rightarrow> None
      | Some (Inl e) \<Rightarrow> Some (Raised (Unhandled e), w)
      | Some (Inr results) \<Rightarrow> Some (main_body expanduser a results w))"

section \<open>Properties of the string operations\<close>

lemma rev_dropWhile_rev: "xs = rev (dropWhile P (rev xs)) @ rev (takeWhile P (rev xs))"
proof -
  have "rev xs = takeWhile P (rev xs) @ dropWhile P (rev xs)" by simp
  then have "rev (rev xs) = rev (takeWhile P (rev xs) @ dropWhile P (rev xs))"
    by (rule arg_cong)
  then show ?thesis by (simp only: rev_rev_ident rev_append)
qed

lemma strip_prefix_of_dropWhile:
  "dropWhile isspace s = strip s @ rev (takeWhile isspace (rev (dropWhile isspace s)))"
  unfolding strip_def by (rule rev_dropWhile_rev)

lemma strip_ends:
  assumes "strip s \<noteq> []"
  shows "\<not> isspace (hd (strip s))" and "\<not> isspace (last (strip s))"
proof -
  have "dropWhile isspace s = [] \<Longrightarrow> strip s = []"
    unfolding strip_def by (simp del: dropWhile_eq_Nil_conv)
  with assms have ne: "dropWhile isspace s \<noteq> []" by blast
  then have "\<not> isspace (hd (dropWhile isspace s))" by (rule hd_dropWhile)
  moreover have "hd (dropWhile isspace s) = hd (strip s)"
    using strip_prefix_of_dropWhile[of s] assms by (metis hd_append2)
  ultimately show "\<not> isspace (hd (strip s))" by simp
  from assms have "dropWhile isspace (rev (dropWhile isspace s)) \<noteq> []"
    unfolding strip_def by (simp del: dropWhile_eq_Nil_conv)
  then have "\<not> isspace (hd (dropWhile isspace (rev (dropWhile isspace s))))" by (rule hd_dropWhile)
  moreover have "last (strip s) = hd (dropWhile isspace (rev (dropWhile isspace s)))"
    unfolding strip_def by (simp add: last_rev del: dropWhile_eq_Nil_conv)
  ultimately show "\<not> isspace (last (strip s))" by simp
qed

lemma isspace_newline: "isspace (CHR 0x0A)"
  by (simp add: isspace_def whitespace_def)

lemma strip_blank_iff: "strip s = [] \<longleftrightarrow> (\<forall>c \<in> set s. isspace c)"
proof
  assume "\<forall>c \<in> set s. isspace c"
  then have "dropWhile isspace s = []" by simp
  then show "strip s = []" by (simp only: strip_def rev.simps dropWhile.simps)
next
  assume blank: "strip s = []"
  have "dropWhile isspace s = []"
  proof (rule ccontr)
    assume ne: "dropWhile isspace s \<noteq> []"
    then have "\<not> isspace (hd (dropWhile isspace s))" by (rule hd_dropWhile)
    moreover have "dropWhile isspace s = strip s @ rev (takeWhile isspace (rev (dropWhile isspace s)))"
      by (rule strip_prefix_of_dropWhile)
    then have d: "dropWhile isspace s = rev (takeWhile isspace (rev (dropWhile isspace s)))"
      by (simp only: blank append_Nil)
    have "hd (dropWhile isspace s) \<in> set (takeWhile isspace (rev (dropWhile isspace s)))"
      using ne hd_in_set[OF ne] by (subst (asm) (2) d) simp
    then have "isspace (hd (dropWhile isspace s))" by (rule set_takeWhileD[THEN conjunct2])
    ultimately show False by blast
  qed
  then show "\<forall>c \<in> set s. isspace c" by (simp only: dropWhile_eq_Nil_conv)
qed

section \<open>Properties of the fetcher\<close>

lemma fetch_keys_returns: "\<exists>r. fetch_keys outcome u = Inr r \<and> user r = u"
  by (auto simp: fetch_keys_def fetch_try_def Let_def
      split: http_outcome.splits sum.splits exn.splits)

lemma fetch_keys_one_field:
  assumes "fetch_keys outcome u = Inr r"
  shows "(keys r = None) = (error r \<noteq> None)" and "keys r \<noteq> Some []"
  using assms
  by (auto simp: fetch_keys_def fetch_try_def Let_def
      split: http_outcome.splits sum.splits exn.splits if_splits)

section \<open>Properties of the dispatcher\<close>

lemma those_map:
  "those (map f xs) = (if \<forall>x \<in> set xs. f x \<noteq> None then Some (map (\<lambda>x. the (f x)) xs) else None)"
  by (induction xs) (auto split: option.splits)

lemma those_slots_full:
  assumes "\<forall>j<length vs. j \<in> D"
  shows "those (map (\<lambda>j. if j \<in> D then Some (vs ! j) else None) [0..<length vs]) = Some vs"
proof -
  have "map (\<lambda>x. the (if x \<in> D then Some (vs ! x) else None)) [0..<length vs] = vs"
    using assms by (intro nth_equalityI) simp_all
  with assms show ?thesis by (simp add: those_map)
qed

lemma those_slots_open:
  assumes "j < length vs" and "j \<notin> D"
  shows "those (map (\<lambda>j. if j \<in> D then Some (vs ! j) else None) [0..<length vs]) = None"
proof -
  have "\<exists>x\<in>set [0..<length vs]. (if x \<in> D then Some (vs ! x) else None) = None"
    using assms by (intro bexI[of _ j]) simp_all
  then show ?thesis by (simp add: those_map)
qed

lemma gather_from_step:
  assumes "i < length vs"
  shows "gather_from (map Inr vs) (\<lambda>j. if j \<in> D then Some (vs ! j) else None) (i # order) =
    (case those (map (\<lambda>j. if j \<in> insert i D then Some (vs ! j) else None) [0..<length vs]) of
       Some results \<Rightarrow> Some (Inr results)
     | None \<Rightarrow> gather_from (map Inr vs) (\<lambda>j. if j \<in> insert i D then Some (vs ! j) else None) order)"
proof -
  have upd: "(\<lambda>j. if j \<in> D then Some (vs ! j) else None)(i \<mapsto> vs ! i)
      = (\<lambda>j. if j \<in> insert i D then Some (vs ! j) else None)"
    by (rule ext) simp
  from assms have "gather_from (map Inr vs) (\<lambda>j. if j \<in> D then Some (vs ! j) else None) (i # order) =
    (case those (map ((\<lambda>j. if j \<in> D then Some (vs ! j) else None)(i \<mapsto> vs ! i)) [0..<length vs]) of
       Some results \<Rightarrow> Some (Inr results)
     | None \<Rightarrow> gather_from (map Inr vs) ((\<lambda>j. if j \<in> D then Some (vs ! j) else None)(i \<mapsto> vs ! i)) order)"
    by (simp del: fun_upd_apply)
  then show ?thesis unfolding upd .
qed

lemma gather_from_returns:
  assumes "distinct order" and "\<forall>j \<in> set order. j < length vs \<and> j \<notin> D"
    and "\<forall>j<length vs. j \<in> D \<or> j \<in> set order" and "order \<noteq> []"
  shows "gather_from (map Inr vs) (\<lambda>j. if j \<in> D then Some (vs ! j) else None) order = Some (Inr vs)"
  using assms
proof (induction order arbitrary: D)
  case Nil
  then show ?case by simp
next
  case (Cons i order)
  from Cons.prems have i: "i < length vs" by simp
  show ?case
  proof (cases "order = []")
    case True
    with Cons.prems have "\<forall>j<length vs. j \<in> insert i D" by auto
    then show ?thesis by (simp only: gather_from_step[OF i] those_slots_full option.case)
  next
    case False
    then obtain j where j: "j \<in> set order" by (cases order) auto
    with Cons.prems have "j < length vs" "j \<notin> insert i D" by auto
    then have unfilled:
      "those (map (\<lambda>j. if j \<in> insert i D then Some (vs ! j) else None) [0..<length vs]) = None"
      by (rule those_slots_open)
    have "gather_from (map Inr vs) (\<lambda>j. if j \<in> insert i D then Some (vs ! j) else None) order
        = Some (Inr vs)"
    proof (rule Cons.IH)
      show "distinct order" using Cons.prems by simp
      show "\<forall>j\<in>set order. j < length vs \<and> j \<notin> insert i D" using Cons.prems by auto
      show "\<forall>j<length vs. j \<in> insert i D \<or> j \<in> set order" using Cons.prems by auto
      show "order \<noteq> []" by (rule False)
    qed
    then show ?thesis by (simp only: gather_from_step[OF i] unfilled option.case)
  qed
qed

lemma gather_returns:
  assumes "distinct order" and "set order = {..<length vs}"
  shows "gather (map Inr vs) order = Some (Inr vs)"
proof (cases "vs = []")
  case True
  then show ?thesis by (simp add: gather_def)
next
  case False
  then have "0 \<in> {..<length vs}" by simp
  with assms(2) have "0 \<in> set order" by simp
  then have ne: "order \<noteq> []" by (cases order) simp_all
  have "gather_from (map Inr vs) (\<lambda>j. if j \<in> {} then Some (vs ! j) else None) order = Some (Inr vs)"
    using assms ne by (intro gather_from_returns) auto
  with False show ?thesis by (simp add: gather_def)
qed

lemma gather_from_never_raises: "gather_from (map Inr vs) slots order \<noteq> Some (Inl e)"
proof (induction order arbitrary: slots)
  case Nil
  then show ?case by simp
next
  case (Cons i order)
  then show ?case by (cases "length vs \<le> i") (simp_all split: option.splits)
qed

lemma gather_never_raises: "gather (map Inr vs) order \<noteq> Some (Inl e)"
  by (simp add: gather_def gather_from_never_raises)

lemma tasks_return:
  "\<exists>vs. map (\<lambda>(i, u). fetch_keys (net i) u) (enumerate n us) = map Inr vs
      \<and> map user vs = us
      \<and> (\<forall>i<length us. fetch_keys (net (n + i)) (us ! i) = Inr (vs ! i))"
proof (induction us arbitrary: n)
  case Nil
  then show ?case by simp
next
  case (Cons u us)
  obtain r where r: "fetch_keys (net n) u = Inr r" "user r = u"
    using fetch_keys_returns by blast
  obtain vs where vs: "map (\<lambda>(i, u). fetch_keys (net i) u) (enumerate (Suc n) us) = map Inr vs"
      "map user vs = us" "\<forall>i<length us. fetch_keys (net (Suc n + i)) (us ! i) = Inr (vs ! i)"
    using Cons.IH[of "Suc n"] by blast
  have "\<forall>i<length (u # us). fetch_keys (net (n + i)) ((u # us) ! i) = Inr ((r # vs) ! i)"
  proof (intro allI impI)
    fix i assume "i < length (u # us)"
    then show "fetch_keys (net (n + i)) ((u # us) ! i) = Inr ((r # vs) ! i)"
      using r vs(3) by (cases i) simp_all
  qed
  with r vs(1,2) show ?case by (intro exI[of _ "r # vs"]) simp
qed

lemma fetch_all_returns:
  assumes "distinct order" and "set order = {..<length us}"
  shows "\<exists>rs. fetch_all us net order = Some (Inr rs) \<and> map user rs = us
           \<and> (\<forall>i<length us. fetch_keys (net i) (us ! i) = Inr (rs ! i))"
proof -
  obtain vs where vs: "map (\<lambda>(i, u). fetch_keys (net i) u) (enumerate 0 us) = map Inr vs"
      "map user vs = us" "\<forall>i<length us. fetch_keys (net (0 + i)) (us ! i) = Inr (vs ! i)"
    using tasks_return[of net 0 us] by blast
  from vs(2) have "length vs = length us" by (metis length_map)
  with assms have "gather (map Inr vs) order = Some (Inr vs)" by (intro gather_returns) simp_all
  with vs show ?thesis by (intro exI[of _ vs]) (simp add: fetch_all_def)
qed

lemma fetch_all_never_raises: "fetch_all us net order \<noteq> Some (Inl e)"
proof -
  obtain vs where "map (\<lambda>(i, u). fetch_keys (net i) u) (enumerate 0 us) = map Inr vs"
    using tasks_return[of net 0 us] by blast
  then show ?thesis by (simp add: fetch_all_def gather_never_raises)
qed

text \<open>
  C1. Whatever the network does to a request, \<open>fetch_keys\<close> returns a result for the user
  it was asked about and raises nothing. Status 404 gives the error "User not found";
  any other status but 200 gives "HTTP" and the status; status 200 with a body that
  is empty after trimming (it is empty or all whitespace) gives "No keys found"; status
  200 with any other body gives the
  trimmed body as the keys and no error; a timeout, raised by the request or while
  the body is read, gives "Request timed out"; any other exception gives its description.
  Hence no exception ever leaves \<open>fetch_all\<close>: one user's failure does not abort the
  fetching for the others.
\<close>

theorem fetch_keys_contains_failures:
  "(\<exists>r. fetch_keys outcome u = Inr r \<and> user r = u)
   \<and> fetch_keys (Responds 404 body) u
       = Inr \<lparr>user = u, keys = None, error = Some ''User not found''\<rparr>
   \<and> (status \<noteq> 404 \<and> status \<noteq> 200 \<longrightarrow>
        fetch_keys (Responds status body) u
          = Inr \<lparr>user = u, keys = None, error = Some (''HTTP '' @ str_int status)\<rparr>)
   \<and> (strip raw = [] \<longrightarrow>
        fetch_keys (Responds 200 (Inr raw)) u
          = Inr \<lparr>user = u, keys = None, error = Some ''No keys found''\<rparr>)
   \<and> (strip raw \<noteq> [] \<longrightarrow>
        fetch_keys (Responds 200 (Inr raw)) u
          = Inr \<lparr>user = u, keys = Some (strip raw), error = None\<rparr>)
   \<and> (strip raw = []) = (\<forall>c \<in> set raw. isspace c)
   \<and> fetch_keys (GetRaises TimeoutError) u
       = Inr \<lparr>user = u, keys = None, error = Some ''Request timed out''\<rparr>
   \<and> fetch_keys (Responds 200 (Inl TimeoutError)) u
       = Inr \<lparr>user = u, keys = None, error = Some ''Request timed out''\<rparr>
   \<and> fetch_keys (GetRaises (OtherException d)) u
       = Inr \<lparr>user = u, keys = None, error = Some d\<rparr>
   \<and> fetch_keys (Responds 200 (Inl (OtherException d))) u
       = Inr \<lparr>user = u, keys = None, error = Some d\<rparr>
   \<and> fetch_all us net order \<noteq> Some (Inl e)"
proof -
  have "\<exists>r. fetch_keys outcome u = Inr r \<and> user r = u" by (rule fetch_keys_returns)
  moreover have "fetch_all us net order \<noteq> Some (Inl e)" by (rule fetch_all_never_raises)
  moreover have "(strip raw = []) = (\<forall>c \<in> set raw. isspace c)" by (rule strip_blank_iff)
  moreover have "fetch_keys (Responds 404 body) u
       = Inr \<lparr>user = u, keys = None, error = Some ''User not found''\<rparr>"
    by (simp add: fetch_keys_def fetch_try_def)
  moreover have "status \<noteq> 404 \<and> status \<noteq> 200 \<longrightarrow>
        fetch_keys (Responds status body) u
          = Inr \<lparr>user = u, keys = None, error = Some (''HTTP '' @ str_int status)\<rparr>"
    by (simp add: fetch_keys_def fetch_try_def)
  moreover have "strip raw = [] \<longrightarrow>
        fetch_keys (Responds 200 (Inr raw)) u
          = Inr \<lparr>user = u, keys = None, error = Some ''No keys found''\<rparr>"
    by (simp add: fetch_keys_def fetch_try_def)
  moreover have "strip raw \<noteq> [] \<longrightarrow>
        fetch_keys (Responds 200 (Inr raw)) u
          = Inr \<lparr>user = u, keys = Some (strip raw), error = None\<rparr>"
    by (simp add: fetch_keys_def fetch_try_def)
  moreover have "fetch_keys (GetRaises TimeoutError) u
       = Inr \<lparr>user = u, keys = None, error = Some ''Request timed out''\<rparr>"
    "fetch_keys (Responds 200 (Inl TimeoutError)) u
       = Inr \<lparr>user = u, keys = None, error = Some ''Request timed out''\<rparr>"
    "fetch_keys (GetRaises (OtherException d)) u
       = Inr \<lparr>user = u, keys = None, error = Some d\<rparr>"
    "fetch_keys (Responds 200 (Inl (OtherException d))) u
       = Inr \<lparr>user = u, keys = None, error = Some d\<rparr>"
    by (simp_all add: fetch_keys_def fetch_try_def)
  ultimately show ?thesis by blast
qed

theorem fetch_keys_contains_failures_witness:
  "fetch_keys (Responds 503 (Inr [])) ''bob''
     = Inr \<lparr>user = ''bob'', keys = None, error = Some ''HTTP 503''\<rparr>
   \<and> fetch_keys (Responds 200 (Inr '' \<newline>'')) ''bob''
     = Inr \<lparr>user = ''bob'', keys = None, error = Some ''No keys found''\<rparr>
   \<and> fetch_keys (Responds 200 (Inr ''ssh-rsa AAA... \<newline>'')) ''alice''
     = Inr \<lparr>user = ''alice'', keys = Some ''ssh-rsa AAA...'', error = None\<rparr>"
proof -
  have s: "(503::int) \<noteq> 404 \<and> (503::int) \<noteq> 200" by simp
  have e: "strip '' \<newline>'' = []" by (simp add: strip_def isspace_def whitespace_def)
  have k: "strip ''ssh-rsa AAA... \<newline>'' = ''ssh-rsa AAA...''"
    by (simp add: strip_def isspace_def whitespace_def)
  have d: "str_int 503 = ''503''" by (simp add: str_int_def str_nat.simps digit_def)
  from fetch_keys_contains_failures[where status = 503 and body = "Inr []" and u = "''bob''"
      and raw = "'' \<newline>''"]
    fetch_keys_contains_failures[where u = "''alice''" and raw = "''ssh-rsa AAA... \<newline>''"]
  show ?thesis using s e k d by simp
qed

text \<open>
  C9. A result of \<open>fetch_keys\<close> has exactly one of its two optional fields set: the keys
  are absent exactly when an error is present. The keys are never the empty string:
  a 200 response whose body is empty after trimming is the error "No keys found".
\<close>

theorem fetch_keys_one_of_keys_error:
  assumes "fetch_keys outcome u = Inr r"
  shows "(keys r \<noteq> None \<longrightarrow> error r = None) \<and> (error r \<noteq> None \<longrightarrow> keys r = None)
         \<and> (keys r = None) = (error r \<noteq> None) \<and> keys r \<noteq> Some []
         \<and> (\<forall>raw. outcome = Responds 200 (Inr raw) \<and> strip raw = [] \<longrightarrow>
               keys r = None \<and> error r = Some ''No keys found'')"
proof -
  have "\<forall>raw. outcome = Responds 200 (Inr raw) \<and> strip raw = [] \<longrightarrow>
               keys r = None \<and> error r = Some ''No keys found''"
    using assms by (auto simp: fetch_keys_def fetch_try_def)
  with fetch_keys_one_field[OF assms] show ?thesis by auto
qed

theorem fetch_keys_one_of_keys_error_witness:
  "fetch_keys (Responds 200 (Inr ''  \<newline>'')) ''bob''
     = Inr \<lparr>user = ''bob'', keys = None, error = Some ''No keys found''\<rparr>
   \<and> fetch_keys (Responds 200 (Inr ''ssh-ed25519 AAAA'')) ''bob''
     = Inr \<lparr>user = ''bob'', keys = Some ''ssh-ed25519 AAAA'', error = None\<rparr>
   \<and> (keys \<lparr>user = ''bob'', keys = None, error = Some ''No keys found''\<rparr> = None)
     = (error \<lparr>user = ''bob'', keys = None, error = Some ''No keys found''\<rparr> \<noteq> None)
   \<and> (keys \<lparr>user = ''bob'', keys = Some ''ssh-ed25519 AAAA'', error = None\<rparr> = None)
     = (error \<lparr>user = ''bob'', keys = Some ''ssh-ed25519 AAAA'', error = None\<rparr> \<noteq> None)"
proof -
  have a: "fetch_keys (Responds 200 (Inr ''  \<newline>'')) ''bob''
     = Inr \<lparr>user = ''bob'', keys = None, error = Some ''No keys found''\<rparr>"
    by (simp add: fetch_keys_def fetch_try_def strip_def isspace_def whitespace_def)
  have b: "fetch_keys (Responds 200 (Inr ''ssh-ed25519 AAAA'')) ''bob''
     = Inr \<lparr>user = ''bob'', keys = Some ''ssh-ed25519 AAAA'', error = None\<rparr>"
    by (simp add: fetch_keys_def fetch_try_def strip_def isspace_def whitespace_def)
  from fetch_keys_one_of_keys_error[OF a] fetch_keys_one_of_keys_error[OF b] a b
  show ?thesis by simp
qed

text \<open>
  C2. When every request is over, in whatever order they end, \<open>fetch_all\<close> returns one
  result per requested user, in the order of the request: the \<open>i\<close>-th result is the one
  \<open>fetch_keys\<close> made for the \<open>i\<close>-th user and carries that user's name, whether the
  requests failed or not.
\<close>

theorem fetch_all_order_preserving:
  assumes "distinct order" and "set order = {..<length us}"
  shows "\<exists>rs. fetch_all us net order = Some (Inr rs) \<and> length rs = length us
           \<and> map user rs = us
           \<and> (\<forall>i<length us. user (rs ! i) = us ! i \<and> fetch_keys (net i) (us ! i) = Inr (rs ! i))"
proof -
  obtain rs where rs: "fetch_all us net order = Some (Inr rs)" "map user rs = us"
      "\<forall>i<length us. fetch_keys (net i) (us ! i) = Inr (rs ! i)"
    using fetch_all_returns[OF assms] by blast
  from rs(2) have len: "length rs = length us" by (metis length_map)
  have "\<forall>i<length us. user (rs ! i) = us ! i"
    using rs(2) len by (metis nth_map)
  with rs len show ?thesis by blast
qed

theorem fetch_all_order_preserving_witness:
  "distinct [2, 0, 1 :: nat]
   \<and> set [2, 0, 1 :: nat] = {..<length [''alice'', ''ghost404'', ''alice'']}
   \<and> (\<exists>rs. fetch_all [''alice'', ''ghost404'', ''alice'']
              (\<lambda>i. if i = 1 then Responds 404 (Inr []) else GetRaises TimeoutError) [2, 0, 1]
              = Some (Inr rs)
          \<and> length rs = 3 \<and> map user rs = [''alice'', ''ghost404'', ''alice''])"
proof -
  define net0 where "net0 = (\<lambda>i::nat. if i = 1 then Responds 404 (Inr []) else GetRaises TimeoutError)"
  have d: "distinct [2, 0, 1 :: nat]" by simp
  have s: "set [2, 0, 1 :: nat] = {..<length [''alice'', ''ghost404'', ''alice'']}"
    by (auto simp: lessThan_def)
  have "\<exists>rs. fetch_all [''alice'', ''ghost404'', ''alice''] net0 [2, 0, 1] = Some (Inr rs)
          \<and> length rs = length [''alice'', ''ghost404'', ''alice'']
          \<and> map user rs = [''alice'', ''ghost404'', ''alice'']
          \<and> (\<forall>i<length [''alice'', ''ghost404'', ''alice''].
                user (rs ! i) = [''alice'', ''ghost404'', ''alice''] ! i
                \<and> fetch_keys (net0 i) ([''alice'', ''ghost404'', ''alice''] ! i) = Inr (rs ! i))"
    by (rule fetch_all_order_preserving[OF d s])
  then obtain rs where rs: "fetch_all [''alice'', ''ghost404'', ''alice''] net0 [2, 0, 1] = Some (Inr rs)"
    "length rs = length [''alice'', ''ghost404'', ''alice'']"
    "map user rs = [''alice'', ''ghost404'', ''alice'']"
    by (elim exE conjE)
  from rs(2) have "length rs = 3" by simp
  with rs(1,3) have "\<exists>rs. fetch_all [''alice'', ''ghost404'', ''alice''] net0 [2, 0, 1] = Some (Inr rs)
          \<and> length rs = 3 \<and> map user rs = [''alice'', ''ghost404'', ''alice'']"
    by (intro exI[of _ rs] conjI)
  with d s show ?thesis unfolding net0_def by (intro conjI)
qed

section \<open>Properties of the formatter\<close>

lemma format_loop_eq:
  "format_loop inline rs combined had_errors w =
     ((combined @ concat (map (\<lambda>r.
          if truthy (error r) \<or> \<not> truthy (keys r) then []
          else if inline then
            map (\<lambda>line. line @ '' '' @ user r)
              (filter (\<lambda>line. strip line \<noteq> []) (splitlines (fmt (keys r))))
          else [''# '' @ user r @ ''\<newline>'' @ fmt (keys r) @ ''\<newline>'']) rs),
       had_errors \<or> list_ex (\<lambda>r. truthy (error r)) rs),
      w\<lparr>stderr := stderr w
           @ concat (map (\<lambda>r. user r @ '': '' @ fmt (error r) @ ''\<newline>'')
               (filter (\<lambda>r. truthy (error r)) rs))\<rparr>)"
proof (induction rs arbitrary: combined had_errors w)
  case Nil
  then show ?case by simp
next
  case (Cons r rs)
  show ?case
  proof (cases "truthy (error r)")
    case True
    then show ?thesis by (simp add: Cons.IH print_stderr_def)
  next
    case False
    then show ?thesis using Cons.IH by (cases inline) simp_all
  qed
qed

lemma format_results_eq:
  "format_results results inline w =
     ((strip (join ''\<newline>'' (concat (map (\<lambda>r.
          if truthy (error r) \<or> \<not> truthy (keys r) then []
          else if inline then
            map (\<lambda>line. line @ '' '' @ user r)
              (filter (\<lambda>line. strip line \<noteq> []) (splitlines (fmt (keys r))))
          else [''# '' @ user r @ ''\<newline>'' @ fmt (keys r) @ ''\<newline>'']) results))) @ ''\<newline>'',
       list_ex (\<lambda>r. truthy (error r)) results),
      w\<lparr>stderr := stderr w
           @ concat (map (\<lambda>r. user r @ '': '' @ fmt (error r) @ ''\<newline>'')
               (filter (\<lambda>r. truthy (error r)) results))\<rparr>)"
  by (simp add: format_results_def format_loop_eq)

text \<open>
  C5. In either text mode the payload of \<open>format_results\<close> is the per-user blocks, joined
  by newlines and trimmed of leading and trailing whitespace, followed by one newline.
  So the payload ends with a newline, what stands before that newline neither starts
  nor ends with whitespace, and in particular does not end with a second newline.
\<close>

theorem format_results_normalized:
  "\<exists>body. fst (fst (format_results results inline w)) = body @ ''\<newline>''
     \<and> body = strip (join ''\<newline>'' (fst (fst (format_loop inline results [] False w))))
     \<and> (body \<noteq> [] \<longrightarrow> \<not> isspace (hd body) \<and> \<not> isspace (last body) \<and> last body \<noteq> CHR 0x0A)
     \<and> last (fst (fst (format_results results inline w))) = CHR 0x0A
     \<and> butlast (fst (fst (format_results results inline w))) = body"
proof -
  let ?body = "strip (join ''\<newline>'' (fst (fst (format_loop inline results [] False w))))"
  have p: "fst (fst (format_results results inline w)) = ?body @ ''\<newline>''"
    by (simp add: format_results_def split: prod.splits)
  have "?body \<noteq> [] \<longrightarrow> \<not> isspace (hd ?body) \<and> \<not> isspace (last ?body) \<and> last ?body \<noteq> CHR 0x0A"
    using strip_ends isspace_newline by metis
  with p show ?thesis by (intro exI[of _ ?body]) simp
qed

theorem format_results_normalized_witness:
  "fst (fst (format_results
      [\<lparr>user = ''alice'', keys = Some ''ssh-rsa AAA...'', error = None\<rparr>,
       \<lparr>user = ''bob'', keys = Some ''ssh-ed25519 BBB'', error = None\<rparr>] False
      \<lparr>files = Map.empty, stdout = [], stderr = []\<rparr>))
    = ''# alice\<newline>ssh-rsa AAA...\<newline>\<newline># bob\<newline>ssh-ed25519 BBB\<newline>''
   \<and> fst (fst (format_results [] True \<lparr>files = Map.empty, stdout = [], stderr = []\<rparr>)) = ''\<newline>''"
proof -
  have "fst (fst (format_results
      [\<lparr>user = ''alice'', keys = Some ''ssh-rsa AAA...'', error = None\<rparr>,
       \<lparr>user = ''bob'', keys = Some ''ssh-ed25519 BBB'', error = None\<rparr>] False
      \<lparr>files = Map.empty, stdout = [], stderr = []\<rparr>))
    = ''# alice\<newline>ssh-rsa AAA...\<newline>\<newline># bob\<newline>ssh-ed25519 BBB\<newline>''"
    using format_results_normalized[of
      "[\<lparr>user = ''alice'', keys = Some ''ssh-rsa AAA...'', error = None\<rparr>,
       \<lparr>user = ''bob'', keys = Some ''ssh-ed25519 BBB'', error = None\<rparr>]" False
      "\<lparr>files = Map.empty, stdout = [], stderr = []\<rparr>"]
    by (simp add: strip_def isspace_def whitespace_def)
  moreover have "fst (fst (format_results [] True \<lparr>files = Map.empty, stdout = [], stderr = []\<rparr>)) = ''\<newline>''"
    using format_results_normalized[of "[]" True "\<lparr>files = Map.empty, stdout = [], stderr = []\<rparr>"]
    by (simp add: strip_def)
  ultimately show ?thesis by simp
qed

lemma inline_lines_of_keys:
  assumes "keys r \<noteq> None \<longrightarrow> error r = None"
  shows "(if truthy (error r) \<or> \<not> truthy (keys r) then []
          else map (\<lambda>line. line @ '' '' @ user r)
                 (filter (\<lambda>line. strip line \<noteq> []) (splitlines (fmt (keys r)))))
       = (case keys r of
            None \<Rightarrow> []
          | Some k \<Rightarrow> map (\<lambda>line. line @ '' '' @ user r)
                        (filter (\<lambda>line. strip line \<noteq> []) (splitlines k)))"
  using assms by (cases "keys r") (auto simp: splitlines_def)

text \<open>
  C6. With inline annotation the formatter emits, for every result without an error, one
  line per non-blank line of its keys: that line, one space, the user name. Blank
  lines of the keys are left out, and nothing else is emitted: no header line. For
  results as \<open>fetch_keys\<close> makes them (no error where there are keys) these are the lines
  of every result that has keys. The payload is the emitted lines joined by newlines,
  trimmed, with one newline at the end.
\<close>

theorem format_results_inline:
  "fst (fst (format_loop True results [] False w))
     = concat (map (\<lambda>r.
         if truthy (error r) \<or> \<not> truthy (keys r) then []
         else map (\<lambda>line. line @ '' '' @ user r)
                (filter (\<lambda>line. strip line \<noteq> []) (splitlines (fmt (keys r))))) results)
   \<and> ((\<forall>r \<in> set results. keys r \<noteq> None \<longrightarrow> error r = None) \<longrightarrow>
        fst (fst (format_loop True results [] False w))
          = concat (map (\<lambda>r.
              case keys r of
                None \<Rightarrow> []
              | Some k \<Rightarrow> map (\<lambda>line. line @ '' '' @ user r)
                            (filter (\<lambda>line. strip line \<noteq> []) (splitlines k))) results))
   \<and> fst (fst (format_results results True w))
     = strip (join ''\<newline>'' (fst (fst (format_loop True results [] False w)))) @ ''\<newline>''"
proof (intro conjI impI)
  show l: "fst (fst (format_loop True results [] False w))
     = concat (map (\<lambda>r.
         if truthy (error r) \<or> \<not> truthy (keys r) then []
         else map (\<lambda>line. line @ '' '' @ user r)
                (filter (\<lambda>line. strip line \<noteq> []) (splitlines (fmt (keys r))))) results)"
    by (simp add: format_loop_eq cong: if_cong)
  show "fst (fst (format_results results True w))
     = strip (join ''\<newline>'' (fst (fst (format_loop True results [] False w)))) @ ''\<newline>''"
    by (simp add: format_results_def split: prod.splits)
  assume inv: "\<forall>r \<in> set results. keys r \<noteq> None \<longrightarrow> error r = None"
  have "map (\<lambda>r.
         if truthy (error r) \<or> \<not> truthy (keys r) then []
         else map (\<lambda>line. line @ '' '' @ user r)
                (filter (\<lambda>line. strip line \<noteq> []) (splitlines (fmt (keys r))))) results
      = map (\<lambda>r.
              case keys r of
                None \<Rightarrow> []
              | Some k \<Rightarrow> map (\<lambda>line. line @ '' '' @ user r)
                            (filter (\<lambda>line. strip line \<noteq> []) (splitlines k))) results"
    using inv by (intro map_cong refl inline_lines_of_keys) blast
  then show "fst (fst (format_loop True results [] False w))
          = concat (map (\<lambda>r.
              case keys r of
                None \<Rightarrow> []
              | Some k \<Rightarrow> map (\<lambda>line. line @ '' '' @ user r)
                            (filter (\<lambda>line. strip line \<noteq> []) (splitlines k))) results)"
    by (simp only: l)
qed

theorem format_results_inline_witness:
  "fst (fst (format_loop True
      [\<lparr>user = ''alice'', keys = Some ''ssh-rsa AAA...\<newline>  \<newline>ssh-ed25519 CCC'', error = None\<rparr>,
       \<lparr>user = ''ghost404'', keys = None, error = Some ''User not found''\<rparr>] [] False
      \<lparr>files = Map.empty, stdout = [], stderr = []\<rparr>))
    = [''ssh-rsa AAA... alice'', ''ssh-ed25519 CCC alice'']
   \<and> fst (fst (format_results
      [\<lparr>user = ''alice'', keys = Some ''ssh-rsa AAA...\<newline>  \<newline>ssh-ed25519 CCC'', error = None\<rparr>,
       \<lparr>user = ''ghost404'', keys = None, error = Some ''User not found''\<rparr>] True
      \<lparr>files = Map.empty, stdout = [], stderr = []\<rparr>))
    = ''ssh-rsa AAA... alice\<newline>ssh-ed25519 CCC alice\<newline>''"
proof -
  define rs where
    "rs = [\<lparr>user = ''alice'', keys = Some ''ssh-rsa AAA...\<newline>  \<newline>ssh-ed25519 CCC'', error = None\<rparr>,
           \<lparr>user = ''ghost404'', keys = None, error = Some ''User not found''\<rparr>]"
  define w0 where "w0 = \<lparr>files = Map.empty, stdout = [], stderr = []\<rparr>"
  have inv: "\<forall>r \<in> set rs. keys r \<noteq> None \<longrightarrow> error r = None" by (simp add: rs_def)
  from format_results_inline[of rs w0] inv
  have l: "fst (fst (format_loop True rs [] False w0))
          = concat (map (\<lambda>r.
              case keys r of
                None \<Rightarrow> []
              | Some k \<Rightarrow> map (\<lambda>line. line @ '' '' @ user r)
                            (filter (\<lambda>line. strip line \<noteq> []) (splitlines k))) rs)"
    and p: "fst (fst (format_results rs True w0))
     = strip (join ''\<newline>'' (fst (fst (format_loop True rs [] False w0)))) @ ''\<newline>''"
    by blast+
  have e: "concat (map (\<lambda>r.
              case keys r of
                None \<Rightarrow> []
              | Some k \<Rightarrow> map (\<lambda>line. line @ '' '' @ user r)
                            (filter (\<lambda>line. strip line \<noteq> []) (splitlines k))) rs)
      = [''ssh-rsa AAA... alice'', ''ssh-ed25519 CCC alice'']"
    by (simp add: rs_def splitlines_def is_linebreak_def linebreaks_def strip_def isspace_def
        whitespace_def)
  have l': "fst (fst (format_loop True rs [] False w0))
      = [''ssh-rsa AAA... alice'', ''ssh-ed25519 CCC alice'']"
    by (simp only: l e)
  have "fst (fst (format_results rs True w0))
      = ''ssh-rsa AAA... alice\<newline>ssh-ed25519 CCC alice\<newline>''"
    unfolding p l' by (simp add: strip_def isspace_def whitespace_def)
  with l' show ?thesis unfolding rs_def w0_def by (intro conjI)
qed

section \<open>Properties of the entry point\<close>

lemma splitlines_Nil: "splitlines [] = []"
  by (simp add: splitlines_def)

lemma json_entry_eq:
  "json_entry r =
     JObject [(''user'', JString (user r)),
              (''keys'', JArray (map JString (case keys r of None \<Rightarrow> [] | Some k \<Rightarrow> splitlines k))),
              (''error'', (case error r of None \<Rightarrow> JNull | Some e \<Rightarrow> JString e))]"
  by (cases "keys r") (auto simp: json_entry_def splitlines_Nil)

lemma main_after_fetch:
  assumes "fetch_all (arg_users a) net order = Some (Inr rs)"
  shows "main expanduser a net order w = Some (main_body expanduser a rs w)"
  using assms by (simp add: main_def)

text \<open>
  C3. With \<open>--json\<close>, once every request is over the program prints one JSON array,
  indented by two, with one object per requested user in the order of the request,
  failed or not: the user, the lines of the keys (none when there are no keys) and the
  error or \<open>null\<close>. Nothing goes to the error stream, no file is touched and the program
  returns, whatever the other flags are.
\<close>

theorem main_json:
  assumes "arg_json a" and "distinct order" and "set order = {..<length (arg_users a)}"
  shows "\<exists>rs. fetch_all (arg_users a) net order = Some (Inr rs)
           \<and> map user rs = arg_users a
           \<and> main expanduser a net order w =
               Some (Returned,
                 w\<lparr>stdout := stdout w @ dumps 0 (JArray (map (\<lambda>r.
                    JObject [(''user'', JString (user r)),
                             (''keys'', JArray (map JString
                                (case keys r of None \<Rightarrow> [] | Some k \<Rightarrow> splitlines k))),
                             (''error'', (case error r of None \<Rightarrow> JNull | Some e \<Rightarrow> JString e))])
                    rs)) @ ''\<newline>''\<rparr>)"
proof -
  obtain rs where rs: "fetch_all (arg_users a) net order = Some (Inr rs)"
      "map user rs = arg_users a"
    using fetch_all_returns[OF assms(2,3)] by blast
  have "main_body expanduser a rs w =
      (Returned, print_stdout (dumps 0 (JArray (map json_entry rs))) w)"
    using assms(1) by (simp add: main_body_def)
  then have "main expanduser a net order w =
      Some (Returned, print_stdout (dumps 0 (JArray (map json_entry rs))) w)"
    by (simp add: main_after_fetch[OF rs(1)])
  moreover have "map json_entry rs = map (\<lambda>r.
                    JObject [(''user'', JString (user r)),
                             (''keys'', JArray (map JString
                                (case keys r of None \<Rightarrow> [] | Some k \<Rightarrow> splitlines k))),
                             (''error'', (case error r of None \<Rightarrow> JNull | Some e \<Rightarrow> JString e))])
                    rs"
    by (simp add: json_entry_eq)
  ultimately show ?thesis using rs by (intro exI[of _ rs]) (simp add: print_stdout_def)
qed

theorem main_json_witness:
  \<open>main (\<lambda>s. \<lparr>path_str = s, path_loc = [s]\<rparr>)
      \<lparr>arg_users = [''alice'', ''ghost404''], arg_inline_comments = True, arg_json = True,
       arg_append = True, arg_output = Some ''out.txt'', arg_force = True\<rparr>
      (\<lambda>i. if i = 0 then Responds 200 (Inr ''ssh-rsa AAA... \<newline>'') else Responds 404 (Inr []))
      [1, 0]
      \<lparr>files = Map.empty, stdout = [], stderr = []\<rparr>
    = Some (Returned,
        \<lparr>files = Map.empty,
         stdout = ''[\<newline>  {\<newline>    "user": "alice",\<newline>    "keys": [\<newline>      "ssh-rsa AAA..."\<newline>    ],\<newline>    "error": null\<newline>  },\<newline>  {\<newline>    "user": "ghost404",\<newline>    "keys": [],\<newline>    "error": "User not found"\<newline>  }\<newline>]\<newline>'',
         stderr = []\<rparr>)\<close>
proof -
  define a0 where "a0 = \<lparr>arg_users = [''alice'', ''ghost404''], arg_inline_comments = True,
       arg_json = True, arg_append = True, arg_output = Some ''out.txt'', arg_force = True\<rparr>"
  define net0 where
    "net0 = (\<lambda>i::nat. if i = 0 then Responds 200 (Inr ''ssh-rsa AAA... \<newline>'') else Responds 404 (Inr []))"
  define xp where "xp = (\<lambda>s. \<lparr>path_str = s, path_loc = [s]\<rparr>)"
  define w0 where "w0 = \<lparr>files = Map.empty, stdout = [], stderr = []\<rparr>"
  have j: "arg_json a0" by (simp add: a0_def)
  have d: "distinct [1, 0 :: nat]" by simp
  have s: "set [1, 0 :: nat] = {..<length (arg_users a0)}" by (auto simp: a0_def lessThan_def)
  have f: "fetch_all (arg_users a0) net0 [1, 0]
      = Some (Inr [\<lparr>user = ''alice'', keys = Some ''ssh-rsa AAA...'', error = None\<rparr>,
                   \<lparr>user = ''ghost404'', keys = None, error = Some ''User not found''\<rparr>])"
    by (simp add: a0_def net0_def fetch_all_def gather_def fetch_keys_def fetch_try_def
        strip_def isspace_def whitespace_def)
  have "\<exists>rs. fetch_all (arg_users a0) net0 [1, 0] = Some (Inr rs)
           \<and> map user rs = arg_users a0
           \<and> main xp a0 net0 [1, 0] w0 =
               Some (Returned,
                 w0\<lparr>stdout := stdout w0 @ dumps 0 (JArray (map (\<lambda>r.
                    JObject [(''user'', JString (user r)),
                             (''keys'', JArray (map JString
                                (case keys r of None \<Rightarrow> [] | Some k \<Rightarrow> splitlines k))),
                             (''error'', (case error r of None \<Rightarrow> JNull | Some e \<Rightarrow> JString e))])
                    rs)) @ ''\<newline>''\<rparr>)"
    by (rule main_json[OF j d s])
  then obtain rs where rs: "fetch_all (arg_users a0) net0 [1, 0] = Some (Inr rs)"
    and m: "main xp a0 net0 [1, 0] w0 =
               Some (Returned,
                 w0\<lparr>stdout := stdout w0 @ dumps 0 (JArray (map (\<lambda>r.
                    JObject [(''user'', JString (user r)),
                             (''keys'', JArray (map JString
                                (case keys r of None \<Rightarrow> [] | Some k \<Rightarrow> splitlines k))),
                             (''error'', (case error r of None \<Rightarrow> JNull | Some e \<Rightarrow> JString e))])
                    rs)) @ ''\<newline>''\<rparr>)"
    by (elim exE conjE)
  from rs f have "rs = [\<lparr>user = ''alice'', keys = Some ''ssh-rsa AAA...'', error = None\<rparr>,
                   \<lparr>user = ''ghost404'', keys = None, error = Some ''User not found''\<rparr>]"
    by simp
  with m have \<open>main xp a0 net0 [1, 0] w0 = Some (Returned,
        \<lparr>files = Map.empty,
         stdout = ''[\<newline>  {\<newline>    "user": "alice",\<newline>    "keys": [\<newline>      "ssh-rsa AAA..."\<newline>    ],\<newline>    "error": null\<newline>  },\<newline>  {\<newline>    "user": "ghost404",\<newline>    "keys": [],\<newline>    "error": "User not found"\<newline>  }\<newline>]\<newline>'',
         stderr = []\<rparr>)\<close>
    by (simp add: w0_def splitlines_def is_linebreak_def linebreaks_def newline_indent_def
        encode_string_def escape_char_def eval_nat_numeral)
  then show ?thesis by (simp only: a0_def net0_def xp_def w0_def)
qed

text \<open>
  C7. For the users alice and ghost404, where the request for alice is answered with
  status 200 and the body "ssh-rsa AAA... " followed by a newline and the request for
  ghost404 with status 404, the program without flags prints the payload
  "# alice", newline, "ssh-rsa AAA...", newline on the output stream and the line
  "ghost404: User not found" (followed by an empty line) on the error stream, and
  returns, so the exit code is 0; in either order of completion.
\<close>

theorem main_scenario_text:
  "main expanduser
      \<lparr>arg_users = [''alice'', ''ghost404''], arg_inline_comments = False, arg_json = False,
       arg_append = False, arg_output = None, arg_force = False\<rparr>
      (\<lambda>i. if i = 0 then Responds 200 (Inr ''ssh-rsa AAA... \<newline>'') else Responds 404 body)
      [0, 1] w
    = Some (Returned, w\<lparr>stdout := stdout w @ ''# alice\<newline>ssh-rsa AAA...\<newline>'',
                         stderr := stderr w @ ''ghost404: User not found\<newline>\<newline>''\<rparr>)
   \<and> main expanduser
      \<lparr>arg_users = [''alice'', ''ghost404''], arg_inline_comments = False, arg_json = False,
       arg_append = False, arg_output = None, arg_force = False\<rparr>
      (\<lambda>i. if i = 0 then Responds 200 (Inr ''ssh-rsa AAA... \<newline>'') else Responds 404 body)
      [1, 0] w
    = Some (Returned, w\<lparr>stdout := stdout w @ ''# alice\<newline>ssh-rsa AAA...\<newline>'',
                         stderr := stderr w @ ''ghost404: User not found\<newline>\<newline>''\<rparr>)
   \<and> exit_code Returned = 0"
proof -
  define net0 where
    "net0 = (\<lambda>i::nat. if i = 0 then Responds 200 (Inr ''ssh-rsa AAA... \<newline>'') else Responds 404 body)"
  define rs where "rs = [\<lparr>user = ''alice'', keys = Some ''ssh-rsa AAA...'', error = None\<rparr>,
                   \<lparr>user = ''ghost404'', keys = None, error = Some ''User not found''\<rparr>]"
  define a0 where "a0 = \<lparr>arg_users = [''alice'', ''ghost404''], arg_inline_comments = False,
       arg_json = False, arg_append = False, arg_output = None, arg_force = False\<rparr>"
  have f1: "fetch_all (arg_users a0) net0 [0, 1] = Some (Inr rs)"
    by (simp add: a0_def net0_def rs_def fetch_all_def gather_def fetch_keys_def fetch_try_def
        strip_def isspace_def whitespace_def)
  have f2: "fetch_all (arg_users a0) net0 [1, 0] = Some (Inr rs)"
    by (simp add: a0_def net0_def rs_def fetch_all_def gather_def fetch_keys_def fetch_try_def
        strip_def isspace_def whitespace_def)
  have b: "main_body expanduser a0 rs w
      = (Returned, w\<lparr>stdout := stdout w @ ''# alice\<newline>ssh-rsa AAA...\<newline>'',
                         stderr := stderr w @ ''ghost404: User not found\<newline>\<newline>''\<rparr>)"
    by (simp add: main_body_def a0_def rs_def format_results_def print_stderr_def
        strip_def isspace_def whitespace_def)
  have m1: "main expanduser a0 net0 [0, 1] w = Some (main_body expanduser a0 rs w)"
    by (rule main_after_fetch[OF f1])
  have m2: "main expanduser a0 net0 [1, 0] w = Some (main_body expanduser a0 rs w)"
    by (rule main_after_fetch[OF f2])
  from m1 m2 b show ?thesis unfolding a0_def net0_def by simp
qed

theorem main_scenario_text_witness:
  "main (\<lambda>s. \<lparr>path_str = s, path_loc = [s]\<rparr>)
      \<lparr>arg_users = [''alice'', ''ghost404''], arg_inline_comments = False, arg_json = False,
       arg_append = False, arg_output = None, arg_force = False\<rparr>
      (\<lambda>i. if i = 0 then Responds 200 (Inr ''ssh-rsa AAA... \<newline>'') else Responds 404 (Inr []))
      [1, 0] \<lparr>files = Map.empty, stdout = [], stderr = []\<rparr>
    = Some (Returned, \<lparr>files = Map.empty, stdout = ''# alice\<newline>ssh-rsa AAA...\<newline>'',
                         stderr = ''ghost404: User not found\<newline>\<newline>''\<rparr>)"
  using main_scenario_text[of "\<lambda>s. \<lparr>path_str = s, path_loc = [s]\<rparr>" "Inr []"
      "\<lparr>files = Map.empty, stdout = [], stderr = []\<rparr>"]
  by simp

lemma concat_map_Nil: "(\<And>x. x \<in> set xs \<Longrightarrow> f x = []) \<Longrightarrow> concat (map f xs) = []"
  by (induction xs) simp_all

lemma format_results_frame:
  "files (snd (format_results rs inline w)) = files w"
  "stdout (snd (format_results rs inline w)) = stdout w"
  by (simp_all add: format_results_eq)

text \<open>
  C8. In text mode, when the payload has no content but whitespace, the program writes
  the diagnostics of the failed users and then "No keys fetched." to the error stream
  and returns (exit code 0); output stream and files are as before. The payload is
  such whenever every result has an error or no keys.
\<close>

theorem main_no_keys_fetched:
  assumes "\<not> arg_json a" and "fetch_all (arg_users a) net order = Some (Inr rs)"
  shows "(strip (fst (fst (format_results rs (arg_inline_comments a) w))) = [] \<longrightarrow>
            main expanduser a net order w
              = Some (Returned,
                  w\<lparr>stderr := stderr w
                     @ concat (map (\<lambda>r. user r @ '': '' @ fmt (error r) @ ''\<newline>'')
                         (filter (\<lambda>r. truthy (error r)) rs))
                     @ ''No keys fetched.\<newline>''\<rparr>)
            \<and> exit_code Returned = 0)
       \<and> ((\<forall>r \<in> set rs. truthy (error r) \<or> \<not> truthy (keys r)) \<longrightarrow>
            strip (fst (fst (format_results rs (arg_inline_comments a) w))) = [])"
proof (intro conjI impI)
  assume blank: "strip (fst (fst (format_results rs (arg_inline_comments a) w))) = []"
  obtain combined had_errors w1 where fr:
    "format_results rs (arg_inline_comments a) w = ((combined, had_errors), w1)"
    by (metis surj_pair)
  with blank have c: "strip combined = []" by simp
  from fr have w1: "w1 = w\<lparr>stderr := stderr w
                     @ concat (map (\<lambda>r. user r @ '': '' @ fmt (error r) @ ''\<newline>'')
                         (filter (\<lambda>r. truthy (error r)) rs))\<rparr>"
    by (simp add: format_results_eq)
  have "main_body expanduser a rs w = (Returned, print_stderr ''No keys fetched.'' w1)"
    using assms(1) fr c by (simp add: main_body_def)
  then show "main expanduser a net order w
              = Some (Returned,
                  w\<lparr>stderr := stderr w
                     @ concat (map (\<lambda>r. user r @ '': '' @ fmt (error r) @ ''\<newline>'')
                         (filter (\<lambda>r. truthy (error r)) rs))
                     @ ''No keys fetched.\<newline>''\<rparr>)"
    by (simp add: main_after_fetch[OF assms(2)] w1 print_stderr_def)
next
  show "exit_code Returned = 0" by simp
next
  assume none: "\<forall>r \<in> set rs. truthy (error r) \<or> \<not> truthy (keys r)"
  have c: "concat (map (\<lambda>r.
          if truthy (error r) \<or> \<not> truthy (keys r) then []
          else if arg_inline_comments a then
            map (\<lambda>line. line @ '' '' @ user r)
              (filter (\<lambda>line. strip line \<noteq> []) (splitlines (fmt (keys r))))
          else [''# '' @ user r @ ''\<newline>'' @ fmt (keys r) @ ''\<newline>'']) rs) = []"
    using none by (intro concat_map_Nil) auto
  have p: "fst (fst (format_results rs (arg_inline_comments a) w))
      = strip (join ''\<newline>'' (concat (map (\<lambda>r.
          if truthy (error r) \<or> \<not> truthy (keys r) then []
          else if arg_inline_comments a then
            map (\<lambda>line. line @ '' '' @ user r)
              (filter (\<lambda>line. strip line \<noteq> []) (splitlines (fmt (keys r))))
          else [''# '' @ user r @ ''\<newline>'' @ fmt (keys r) @ ''\<newline>'']) rs))) @ ''\<newline>''"
    by (simp add: format_results_eq)
  have "strip (strip (join ''\<newline>'' []) @ ''\<newline>'') = []"
    by (simp add: strip_def isspace_def whitespace_def)
  then show "strip (fst (fst (format_results rs (arg_inline_comments a) w))) = []"
    by (simp only: p c)
qed

theorem main_no_keys_fetched_witness:
  "main (\<lambda>s. \<lparr>path_str = s, path_loc = [s]\<rparr>)
      \<lparr>arg_users = [''ghost404'', ''slow''], arg_inline_comments = False, arg_json = False,
       arg_append = True, arg_output = Some ''out.txt'', arg_force = True\<rparr>
      (\<lambda>i. if i = 0 then Responds 404 (Inr []) else GetRaises TimeoutError)
      [1, 0] \<lparr>files = Map.empty, stdout = [], stderr = []\<rparr>
    = Some (Returned, \<lparr>files = Map.empty, stdout = [],
              stderr = ''ghost404: User not found\<newline>slow: Request timed out\<newline>No keys fetched.\<newline>''\<rparr>)"
proof -
  define a0 where "a0 = \<lparr>arg_users = [''ghost404'', ''slow''], arg_inline_comments = False,
       arg_json = False, arg_append = True, arg_output = Some ''out.txt'', arg_force = True\<rparr>"
  define net0 where "net0 = (\<lambda>i::nat. if i = 0 then Responds 404 (Inr []) else GetRaises TimeoutError)"
  define rs where "rs = [\<lparr>user = ''ghost404'', keys = None, error = Some ''User not found''\<rparr>,
                   \<lparr>user = ''slow'', keys = None, error = Some ''Request timed out''\<rparr>]"
  define w0 where "w0 = \<lparr>files = Map.empty, stdout = [], stderr = []\<rparr>"
  have j: "\<not> arg_json a0" by (simp add: a0_def)
  have f: "fetch_all (arg_users a0) net0 [1, 0] = Some (Inr rs)"
    by (simp add: a0_def net0_def rs_def fetch_all_def gather_def fetch_keys_def fetch_try_def)
  have n: "\<forall>r \<in> set rs. truthy (error r) \<or> \<not> truthy (keys r)" by (simp add: rs_def)
  from main_no_keys_fetched[OF j f, of w0 "\<lambda>s. \<lparr>path_str = s, path_loc = [s]\<rparr>"] n
  have "main (\<lambda>s. \<lparr>path_str = s, path_loc = [s]\<rparr>) a0 net0 [1, 0] w0
      = Some (Returned, w0\<lparr>stderr := stderr w0
                     @ concat (map (\<lambda>r. user r @ '': '' @ fmt (error r) @ ''\<newline>'')
                         (filter (\<lambda>r. truthy (error r)) rs))
                     @ ''No keys fetched.\<newline>''\<rparr>)"
    by blast
  then show ?thesis by (simp add: a0_def net0_def rs_def w0_def)
qed

section \<open>Properties of the output sink\<close>




















end
